theory Spec2Isabelle
  imports Complex_Main "HOL-Library.Sublist"
begin

section \<open>The account manager: selector resolution, roster cache and fan-out\<close>

text \<open>
  A shallow embedding of \<^verbatim>\<open>src/AccountManager.py\<close> (class \<^verbatim>\<open>AccountManagerMod\<close>).
  Pure helpers are HOL functions; the awaits on the messaging client, the host's reply
  primitive and \<^verbatim>\<open>asyncio.sleep\<close> are actions answered by an arbitrary environment and
  recorded in a trace; every \<^verbatim>\<open>raise\<close> that can reach a caller is an \<open>Inl\<close> value.
\<close>

subsection \<open>Python strings\<close>

text \<open>
  A Python \<^verbatim>\<open>str\<close> is a sequence of code points. The model covers the code points below
  256 (Latin-1), one \<^typ>\<open>char\<close> each; \<open>cp\<close> reads a character's code point. The tables
  below are those of CPython for this range: \<^verbatim>\<open>str.isdigit\<close> accepts the ASCII digits and
  the superscripts U+00B2, U+00B3 and U+00B9; \<^verbatim>\<open>str.lower\<close> adds 32 to A..Z and to
  U+00C0..U+00DE except U+00D7.
\<close>

definition cp :: "char \<Rightarrow> nat" where
  "cp c = of_char c"

definition ascii_digit :: "char \<Rightarrow> bool" where
  "ascii_digit c = (48 \<le> cp c \<and> cp c \<le> 57)"

definition isdigit_char :: "char \<Rightarrow> bool" where
  "isdigit_char c = (ascii_digit c \<or> cp c = 178 \<or> cp c = 179 \<or> cp c = 185)"

definition isdigit :: "string \<Rightarrow> bool" where
  \<comment> \<open>\<^verbatim>\<open>s.isdigit()\<close>: at least one character, and all of them digits.\<close>
  "isdigit s = (s \<noteq> [] \<and> list_all isdigit_char s)"

definition lower_char :: "char \<Rightarrow> char" where
  "lower_char c =
     (if (65 \<le> cp c \<and> cp c \<le> 90) \<or> (192 \<le> cp c \<and> cp c \<le> 222 \<and> cp c \<noteq> 215)
      then char_of (cp c + 32) else c)"

definition lower :: "string \<Rightarrow> string" where
  "lower s = map lower_char s"

definition lstrip :: "char \<Rightarrow> string \<Rightarrow> string" where
  \<comment> \<open>\<^verbatim>\<open>s.lstrip(c)\<close> for a one-character argument: every leading \<open>c\<close> goes.\<close>
  "lstrip c s = dropWhile (\<lambda>x. x = c) s"

definition rstrip :: "char \<Rightarrow> string \<Rightarrow> string" where
  "rstrip c s = rev (dropWhile (\<lambda>x. x = c) (rev s))"

datatype py_error = ValueError | ZeroDivisionError | ExternalError

text \<open>
  \<^verbatim>\<open>int(s)\<close> in base 10: surrounding whitespace is dropped, one sign is allowed, then
  ASCII digits, single underscores allowed between digits; anything else raises
  \<^verbatim>\<open>ValueError\<close> (\<open>None\<close> here). The interpreter's optional cap on the number of digits
  is left out.
\<close>

definition int_space :: "char \<Rightarrow> bool" where
  "int_space c = ((9 \<le> cp c \<and> cp c \<le> 13) \<or> cp c = 32 \<or> cp c = 133 \<or> cp c = 160)"

definition int_strip :: "string \<Rightarrow> string" where
  "int_strip s = rev (dropWhile int_space (rev (dropWhile int_space s)))"

fun digit_groups :: "bool \<Rightarrow> string \<Rightarrow> bool" where
  \<comment> \<open>the flag says that the previous character was a digit\<close>
  "digit_groups prev [] = prev"
| "digit_groups prev (c # cs) =
     (if ascii_digit c then digit_groups True cs
      else if c = CHR ''_'' \<and> prev then digit_groups False cs
      else False)"

definition digits_value :: "string \<Rightarrow> nat" where
  "digits_value s = foldl (\<lambda>acc c. 10 * acc + (cp c - 48)) 0 (filter ascii_digit s)"

definition magnitude :: "string \<Rightarrow> nat option" where
  "magnitude s = (if digit_groups False s then Some (digits_value s) else None)"

definition py_int :: "string \<Rightarrow> int option" where
  "py_int s =
     (case int_strip s of
        [] \<Rightarrow> None
      | c # cs \<Rightarrow>
          if c = CHR ''-'' then map_option (\<lambda>n. - int n) (magnitude cs)
          else if c = CHR ''+'' then map_option int (magnitude cs)
          else map_option int (magnitude (c # cs)))"

function py_str :: "nat \<Rightarrow> string" where
  \<comment> \<open>\<^verbatim>\<open>str(k)\<close> of a non-negative integer\<close>
  "py_str k = (if k < 10 then [char_of (48 + k)] else py_str (k div 10) @ [char_of (48 + k mod 10)])"
  by pat_completeness auto
termination
  by (relation "measure id") auto

declare py_str.simps [simp del]

subsection \<open>Accounts and selector resolution\<close>

text \<open>
  A roster entry is the dictionary \<^verbatim>\<open>{"client": c, "user": me}\<close>. A client is known by its
  identity. Of the user object the code reads \<^verbatim>\<open>id\<close> and \<^verbatim>\<open>username\<close> through
  \<^verbatim>\<open>getattr(..., None)\<close>, so either may be absent.
\<close>

type_synonym client = nat

record user =
  user_id :: "int option"
  username :: "string option"

record account =
  client :: client
  user :: user

fun first_index :: "('a \<Rightarrow> bool) \<Rightarrow> 'a list \<Rightarrow> nat option" where
  \<comment> \<open>\<^verbatim>\<open>for i, x in enumerate(xs): if p(x): return i\<close>, else fall out of the loop\<close>
  "first_index p [] = None"
| "first_index p (x # xs) = (if p x then Some 0 else map_option Suc (first_index p xs))"

definition by_position :: "string \<Rightarrow> account list \<Rightarrow> py_error + nat option" where
  "by_position raw accounts =
     (if isdigit raw then
        (case py_int raw of
           None \<Rightarrow> Inl ValueError
         | Some idx \<Rightarrow>
             if 1 \<le> idx \<and> idx \<le> int (length accounts) then Inr (Some (nat (idx - 1)))
             else Inr None)
      else Inr None)"

definition by_user_id :: "string \<Rightarrow> account list \<Rightarrow> py_error + nat option" where
  "by_user_id raw accounts =
     (if isdigit (lstrip CHR ''-'' raw) then
        (case py_int raw of
           None \<Rightarrow> Inl ValueError
         | Some uid \<Rightarrow> Inr (first_index (\<lambda>acc. user_id (user acc) = Some uid) accounts))
      else Inr None)"

definition handle_matches :: "string \<Rightarrow> account \<Rightarrow> bool" where
  \<comment> \<open>\<^verbatim>\<open>uname and uname.lower() == sel\<close>\<close>
  "handle_matches sel acc =
     (case username (user acc) of
        None \<Rightarrow> False
      | Some uname \<Rightarrow> uname \<noteq> [] \<and> lower uname = sel)"

definition by_username :: "string \<Rightarrow> account list \<Rightarrow> nat option" where
  "by_username sel accounts = first_index (handle_matches sel) accounts"

definition resolve_account :: "string \<Rightarrow> account list \<Rightarrow> py_error + nat option" where
  "resolve_account selector accounts =
     (if selector = [] then Inr None
      else
        let raw = selector;
            sel = lstrip CHR ''@'' (lower selector)
        in case by_position raw accounts of
             Inl e \<Rightarrow> Inl e
           | Inr (Some i) \<Rightarrow> Inr (Some i)
           | Inr None \<Rightarrow>
               (case by_user_id raw accounts of
                  Inl e \<Rightarrow> Inl e
                | Inr (Some i) \<Rightarrow> Inr (Some i)
                | Inr None \<Rightarrow> Inr (by_username sel accounts)))"

definition spec_normalize :: "string \<Rightarrow> string" where
  \<comment> \<open>The normalisation in the specification's words, for comparison with the code's
      \<^verbatim>\<open>selector.lower().lstrip("@")\<close>: lowercase, then strip exactly one leading \<open>@\<close>.\<close>
  "spec_normalize s =
     (case lower s of [] \<Rightarrow> [] | c # cs \<Rightarrow> if c = CHR ''@'' then cs else c # cs)"

subsection \<open>External calls, their trace, and exceptions\<close>

text \<open>
  Every await on a client, on the triggering message or on \<^verbatim>\<open>asyncio.sleep\<close> is an
  action. The environment answers an action in its current state with a reply, or with
  \<open>None\<close> when the call raises, and moves to a new state; nothing is assumed about it.
  The trace records each action with its outcome, in order.
\<close>

datatype request =
    GetMe
  | GetPermissions
  | GetInputEntity
  | ExportChatInviteRequest
  | JoinChannelRequest string
  | ImportChatInviteRequest string
  | InviteToChannelRequest user
  | ReportRequest string
  | SendMessage string "nat option"

datatype notice =
    NoAccounts
  | SayUsage
  | SayMissingText
  | SayNotFoundSelector string
  | SaySent nat nat
  | ReportNeedReply
  | ReportNotInChat nat
  | ReportDone nat nat "string set"
  | JoinOk nat nat
  | JoinFail string
  | SpamUsage
  | SpamBadCount
  | SpamSent "nat option" nat

datatype action =
    Call client request
  | Sleep rat
  | Answer notice
  | Delete

datatype reply = Done | Link "string option" | Me user

record 'w env =
  respond :: "action \<Rightarrow> 'w \<Rightarrow> reply option \<times> 'w"
  clock :: "'w \<Rightarrow> rat"

type_synonym trace = "(action \<times> reply option) list"

type_synonym ('w, 'a) io = "'w \<times> trace \<Rightarrow> (py_error + 'a) \<times> ('w \<times> trace)"

definition io_return :: "'a \<Rightarrow> ('w, 'a) io" where
  "io_return v = (\<lambda>s. (Inr v, s))"

definition io_raise :: "py_error \<Rightarrow> ('w, 'a) io" where
  "io_raise e = (\<lambda>s. (Inl e, s))"

definition io_bind :: "('w, 'a) io \<Rightarrow> ('a \<Rightarrow> ('w, 'b) io) \<Rightarrow> ('w, 'b) io" where
  \<comment> \<open>sequencing: an exception of the first part skips the rest\<close>
  "io_bind m f = (\<lambda>s. case m s of (Inl e, s') \<Rightarrow> (Inl e, s') | (Inr v, s') \<Rightarrow> f v s')"

definition io_attempt :: "('w, 'a) io \<Rightarrow> ('w, 'a option) io" where
  \<comment> \<open>\<^verbatim>\<open>try: m  except Exception: ...\<close>: \<open>None\<close> when the handler is entered\<close>
  "io_attempt m =
     (\<lambda>s. case m s of (Inl e, s') \<Rightarrow> (Inr None, s') | (Inr v, s') \<Rightarrow> (Inr (Some v), s'))"

definition or_else :: "('w, 'a) io \<Rightarrow> ('w, 'a) io \<Rightarrow> ('w, 'a) io" where
  \<comment> \<open>\<^verbatim>\<open>try: return m  except Exception: pass\<close>, followed by \<open>k\<close>\<close>
  "or_else m k = io_bind (io_attempt m) (\<lambda>r. case r of Some v \<Rightarrow> io_return v | None \<Rightarrow> k)"

definition swallow :: "('w, 'a) io \<Rightarrow> ('w, unit) io" where
  \<comment> \<open>\<^verbatim>\<open>try: m  except Exception: pass\<close> and \<^verbatim>\<open>with contextlib.suppress(Exception): m\<close>\<close>
  "swallow m = io_bind (io_attempt m) (\<lambda>_. io_return ())"

definition perform :: "'w env \<Rightarrow> action \<Rightarrow> ('w, reply) io" where
  "perform env a =
     (\<lambda>(w, tr). case respond env a w of
        (None, w') \<Rightarrow> (Inl ExternalError, (w', tr @ [(a, None)]))
      | (Some r, w') \<Rightarrow> (Inr r, (w', tr @ [(a, Some r)])))"

definition sleep :: "'w env \<Rightarrow> rat \<Rightarrow> ('w, unit) io" where
  \<comment> \<open>\<^verbatim>\<open>await asyncio.sleep(d)\<close> returns normally; the environment moves on meanwhile\<close>
  "sleep env d = (\<lambda>(w, tr). (Inr (), (snd (respond env (Sleep d) w), tr @ [(Sleep d, Some Done)])))"

definition monotonic :: "'w env \<Rightarrow> ('w, rat) io" where
  \<comment> \<open>\<^verbatim>\<open>time.monotonic()\<close>\<close>
  "monotonic env = (\<lambda>(w, tr). (Inr (clock env w), (w, tr)))"

definition link_of :: "reply \<Rightarrow> string option" where
  \<comment> \<open>\<^verbatim>\<open>getattr(res, "link", None)\<close>\<close>
  "link_of r = (case r of Link l \<Rightarrow> l | _ \<Rightarrow> None)"

definition me_of :: "reply \<Rightarrow> user" where
  \<comment> \<open>the object \<^verbatim>\<open>get_me()\<close> returned; one that is no user has neither attribute\<close>
  "me_of r = (case r of Me u \<Rightarrow> u | _ \<Rightarrow> \<lparr>user_id = None, username = None\<rparr>)"

subsection \<open>The coordinator and its roster cache\<close>

text \<open>
  The fields of the module object that the functions below read or write.
  \<^verbatim>\<open>self._client\<close> may be unset and \<^verbatim>\<open>self.allclients\<close> may be missing. Clock readings and
  pauses are rationals: the rounding of the floating-point subtraction in the freshness
  test is not modelled.
\<close>

record coordinator =
  self_client :: "client option"
  allclients :: "client list option"
  accounts_cache :: "account list"
  accounts_cache_ts :: rat

definition configured_clients :: "coordinator \<Rightarrow> client option list" where
  \<comment> \<open>\<^verbatim>\<open>getattr(self, "allclients", None) or [self._client]\<close>\<close>
  "configured_clients self =
     (case allclients self of
        None \<Rightarrow> [self_client self]
      | Some cs \<Rightarrow> if cs = [] then [self_client self] else map Some cs)"

fun collect_accounts :: "'w env \<Rightarrow> client option list \<Rightarrow> account list \<Rightarrow> ('w, account list) io" where
  \<comment> \<open>the loop of \<^verbatim>\<open>_refresh_accounts\<close>; calling \<^verbatim>\<open>get_me\<close> on \<^verbatim>\<open>None\<close> raises inside the
      \<^verbatim>\<open>try\<close> and the session is skipped\<close>
  "collect_accounts env [] accounts = io_return accounts"
| "collect_accounts env (None # cs) accounts = collect_accounts env cs accounts"
| "collect_accounts env (Some c # cs) accounts =
     io_bind (io_attempt (perform env (Call c GetMe)))
       (\<lambda>r. case r of
          None \<Rightarrow> collect_accounts env cs accounts
        | Some me \<Rightarrow> collect_accounts env cs (accounts @ [\<lparr>client = c, user = me_of me\<rparr>]))"

definition cache_fresh :: "'w env \<Rightarrow> coordinator \<Rightarrow> bool \<Rightarrow> 'w \<Rightarrow> bool" where
  "cache_fresh env self force w =
     (\<not> force \<and> accounts_cache self \<noteq> [] \<and> clock env w - accounts_cache_ts self < 60)"

definition refresh_accounts ::
  "'w env \<Rightarrow> coordinator \<Rightarrow> bool \<Rightarrow> ('w, account list \<times> coordinator) io" where
  \<comment> \<open>returns the roster and the coordinator with its cache fields as the call leaves them\<close>
  "refresh_accounts env self force =
     (\<lambda>(w, tr).
        if cache_fresh env self force w then (Inr (accounts_cache self, self), (w, tr))
        else
          io_bind (collect_accounts env (configured_clients self) [])
            (\<lambda>accounts. io_bind (monotonic env)
               (\<lambda>now. io_return
                  (accounts, self\<lparr>accounts_cache := accounts, accounts_cache_ts := now\<rparr>)))
            (w, tr))"

definition is_main :: "coordinator \<Rightarrow> account \<Rightarrow> bool" where
  \<comment> \<open>\<^verbatim>\<open>acc["client"] == self._client\<close>, the test behind the listing's main tag\<close>
  "is_main self acc = (self_client self = Some (client acc))"

subsection \<open>Making an account a member of the chat\<close>

record chat =
  chat_username :: "string option"

fun contains :: "string \<Rightarrow> string \<Rightarrow> bool" where
  \<comment> \<open>\<^verbatim>\<open>p in s\<close> for strings\<close>
  "contains p [] = (p = [])"
| "contains p (c # cs) = (prefix p (c # cs) \<or> contains p cs)"

definition after_last_slash :: "string \<Rightarrow> string" where
  \<comment> \<open>\<^verbatim>\<open>link.rsplit("/", 1)[-1]\<close>\<close>
  "after_last_slash link = rev (takeWhile (\<lambda>c. c \<noteq> CHR ''/'') (rev link))"

definition export_invite_link :: "'w env \<Rightarrow> coordinator \<Rightarrow> ('w, string option) io" where
  "export_invite_link env self =
     (case self_client self of
        None \<Rightarrow> io_return None
      | Some m \<Rightarrow>
          or_else
            (io_bind (perform env (Call m GetInputEntity))
               (\<lambda>peer. io_bind (perform env (Call m ExportChatInviteRequest))
                  (\<lambda>res. io_return (link_of res))))
            (io_return None))"

definition join_with_link :: "'w env \<Rightarrow> client \<Rightarrow> string \<Rightarrow> ('w, bool) io" where
  "join_with_link env cl link =
     (if link = [] then io_return False
      else
        or_else
          (io_bind
             (if contains ''joinchat'' link \<or> contains ''+'' link
              then perform env
                     (Call cl (ImportChatInviteRequest
                        (filter (\<lambda>c. c \<noteq> CHR ''+'') (after_last_slash link))))
              else perform env (Call cl (JoinChannelRequest (after_last_slash link))))
             (\<lambda>_. io_return True))
          (io_return False))"

definition invite_by_main :: "'w env \<Rightarrow> coordinator \<Rightarrow> client \<Rightarrow> user \<Rightarrow> ('w, bool) io" where
  \<comment> \<open>the last step of \<^verbatim>\<open>_ensure_in_chat\<close> and its final \<^verbatim>\<open>return False\<close>\<close>
  "invite_by_main env self cl user_entity =
     (case self_client self of
        None \<Rightarrow> io_return False
      | Some m \<Rightarrow>
          if m \<noteq> cl then
            or_else
              (io_bind (perform env (Call m GetPermissions))
                 (\<lambda>_. or_else
                    (io_bind (perform env (Call m (InviteToChannelRequest user_entity)))
                       (\<lambda>_. io_bind (perform env (Call cl GetPermissions))
                          (\<lambda>_. io_return True)))
                    (io_return False)))
              (io_return False)
          else io_return False)"

definition join_by_invite :: "'w env \<Rightarrow> coordinator \<Rightarrow> client \<Rightarrow> user \<Rightarrow> ('w, bool) io" where
  \<comment> \<open>the invite-link step, then the last step\<close>
  "join_by_invite env self cl user_entity =
     io_bind (export_invite_link env self)
       (\<lambda>invite_link.
          case invite_link of
            None \<Rightarrow> invite_by_main env self cl user_entity
          | Some link \<Rightarrow>
              if link = [] then invite_by_main env self cl user_entity
              else
                io_bind (join_with_link env cl link)
                  (\<lambda>joined.
                     if joined then
                       or_else
                         (io_bind (perform env (Call cl GetPermissions)) (\<lambda>_. io_return True))
                         (invite_by_main env self cl user_entity)
                     else invite_by_main env self cl user_entity))"

definition join_by_username ::
  "'w env \<Rightarrow> coordinator \<Rightarrow> client \<Rightarrow> chat \<Rightarrow> user \<Rightarrow> ('w, bool) io" where
  \<comment> \<open>the public-username step, then the later ones\<close>
  "join_by_username env self cl ch user_entity =
     (case chat_username ch of
        None \<Rightarrow> join_by_invite env self cl user_entity
      | Some uname \<Rightarrow>
          if uname = [] then join_by_invite env self cl user_entity
          else
            or_else
              (io_bind (perform env (Call cl (JoinChannelRequest uname))) (\<lambda>_. io_return True))
              (join_by_invite env self cl user_entity))"

definition ensure_in_chat ::
  "'w env \<Rightarrow> coordinator \<Rightarrow> client \<Rightarrow> chat \<Rightarrow> user \<Rightarrow> ('w, bool) io" where
  "ensure_in_chat env self cl ch user_entity =
     or_else
       (io_bind (perform env (Call cl GetPermissions)) (\<lambda>_. io_return True))
       (join_by_username env self cl ch user_entity)"

subsection \<open>Command arguments\<close>

definition extract_silent :: "string list \<Rightarrow> string list \<times> bool" where
  "extract_silent args =
     (if args \<noteq> [] \<and> rstrip CHR ''.'' (lower (last args)) \<in> {''-s'', ''s''}
      then (butlast args, True) else (args, False))"

definition reason_map :: "(string \<times> string) list" where
  \<comment> \<open>\<^verbatim>\<open>self._reason_map\<close>; a reason is known by its name, its class goes with it\<close>
  "reason_map =
     [(''spam'', ''Spam''), (''violence'', ''Violence''), (''pornography'', ''Pornography''),
      (''childabuse'', ''ChildAbuse''), (''copyright'', ''Copyright''), (''other'', ''Other'')]"

definition parse_reasons :: "string list \<Rightarrow> string list" where
  "parse_reasons args =
     (case args of
        [] \<Rightarrow> [''Spam'', ''Other'']
      | a # _ \<Rightarrow>
          (case map_of reason_map (lower a) of
             Some mapped \<Rightarrow> [mapped]
           | None \<Rightarrow> [''Spam'', ''Other'']))"

definition count_of :: "string \<Rightarrow> py_error + nat" where
  \<comment> \<open>\<^verbatim>\<open>max(1, int(token))\<close>\<close>
  "count_of token =
     (case py_int token of None \<Rightarrow> Inl ValueError | Some v \<Rightarrow> Inr (nat (max 1 v)))"

subsection \<open>Reporting from every account\<close>

fun report_reasons :: "'w env \<Rightarrow> client \<Rightarrow> string list \<Rightarrow> ('w, unit) io" where
  "report_reasons env c [] = io_return ()"
| "report_reasons env c (reason_name # reasons) =
     io_bind (swallow (perform env (Call c (ReportRequest reason_name))))
       (\<lambda>_. report_reasons env c reasons)"

fun report_accounts ::
  "'w env \<Rightarrow> coordinator \<Rightarrow> chat \<Rightarrow> string list \<Rightarrow> nat \<Rightarrow> nat \<Rightarrow> account list \<Rightarrow> nat
     \<Rightarrow> ('w, nat) io" where
  \<comment> \<open>the loop of \<^verbatim>\<open>reportcmd\<close> over \<^verbatim>\<open>enumerate(accounts, start=1)\<close>: \<open>n_accounts\<close> is
      \<^verbatim>\<open>len(accounts)\<close>, \<open>idx\<close> the number of the next account, \<open>success\<close> the counter\<close>
  "report_accounts env self ch reasons n_accounts idx [] success = io_return success"
| "report_accounts env self ch reasons n_accounts idx (acc # rest) success =
     io_bind (ensure_in_chat env self (client acc) ch (user acc))
       (\<lambda>in_chat.
          if \<not> in_chat then
            io_bind (perform env (Answer (ReportNotInChat idx)))
              (\<lambda>_. report_accounts env self ch reasons n_accounts (idx + 1) rest success)
          else
            io_bind (io_attempt (perform env (Call (client acc) GetInputEntity)))
              (\<lambda>peer.
                 case peer of
                   None \<Rightarrow>
                     io_bind (perform env (Answer (ReportNotInChat idx)))
                       (\<lambda>_. report_accounts env self ch reasons n_accounts (idx + 1) rest success)
                 | Some _ \<Rightarrow>
                     io_bind (report_reasons env (client acc) reasons)
                       (\<lambda>_. io_bind (if n_accounts > 2 then sleep env (1 / 4) else io_return ())
                          (\<lambda>_. report_accounts env self ch reasons n_accounts (idx + 1) rest
                                 (success + 1)))))"

definition reportcmd ::
  "'w env \<Rightarrow> coordinator \<Rightarrow> bool \<Rightarrow> string list \<Rightarrow> chat \<Rightarrow> ('w, coordinator) io" where
  \<comment> \<open>\<open>has_reply\<close>: the triggering message replies to another; \<open>ch\<close>: its chat. The result
      is the coordinator as the command leaves it.\<close>
  "reportcmd env self has_reply args0 ch =
     (if \<not> has_reply then io_bind (perform env (Answer ReportNeedReply)) (\<lambda>_. io_return self)
      else
        case extract_silent args0 of
          (args, silent) \<Rightarrow>
            io_bind (refresh_accounts env self False)
              (\<lambda>(accounts, self').
                 io_bind
                   (report_accounts env self' ch (parse_reasons args) (length accounts) 1
                      accounts 0)
                   (\<lambda>success.
                      if silent then io_bind (swallow (perform env Delete)) (\<lambda>_. io_return self')
                      else
                        io_bind
                          (perform env
                             (Answer (ReportDone success (length accounts)
                                (set (parse_reasons args)))))
                          (\<lambda>_. io_return self'))))"

subsection \<open>Joining the current chat\<close>

fun join_accounts ::
  "'w env \<Rightarrow> coordinator \<Rightarrow> chat \<Rightarrow> bool \<Rightarrow> (nat \<rightharpoonup> string) \<Rightarrow> nat \<Rightarrow> nat \<Rightarrow> account list
     \<Rightarrow> nat \<Rightarrow> ('w, nat) io" where
  \<comment> \<open>the loop of \<^verbatim>\<open>joincmd\<close> over \<^verbatim>\<open>enumerate(selected_accounts)\<close>\<close>
  "join_accounts env self ch silent label_map n_accounts i [] ok = io_return ok"
| "join_accounts env self ch silent label_map n_accounts i (acc # rest) ok =
     io_bind (ensure_in_chat env self (client acc) ch (user acc))
       (\<lambda>joined.
          io_bind
            (if joined then io_return ()
             else if \<not> silent then
               io_bind
                 (perform env
                    (Answer (JoinFail
                       (case label_map i of Some l \<Rightarrow> l | None \<Rightarrow> py_str (i + 1)))))
                 (\<lambda>_. io_return ())
             else io_return ())
            (\<lambda>_. io_bind (if n_accounts > 2 then sleep env (1 / 5) else io_return ())
               (\<lambda>_. join_accounts env self ch silent label_map n_accounts (i + 1) rest
                      (if joined then ok + 1 else ok))))"

definition join_selected ::
  "'w env \<Rightarrow> coordinator \<Rightarrow> chat \<Rightarrow> bool \<Rightarrow> (nat \<rightharpoonup> string) \<Rightarrow> account list
     \<Rightarrow> ('w, unit) io" where
  \<comment> \<open>the loop and the closing reply of \<^verbatim>\<open>joincmd\<close>\<close>
  "join_selected env self ch silent label_map selected_accounts =
     io_bind
       (join_accounts env self ch silent label_map (length selected_accounts) 0
          selected_accounts 0)
       (\<lambda>ok.
          if silent then swallow (perform env Delete)
          else
            io_bind (perform env (Answer (JoinOk ok (length selected_accounts))))
              (\<lambda>_. io_return ()))"

definition joincmd ::
  "'w env \<Rightarrow> coordinator \<Rightarrow> string list \<Rightarrow> chat \<Rightarrow> ('w, coordinator) io" where
  "joincmd env self args0 ch =
     (case extract_silent args0 of
        (args, silent) \<Rightarrow>
          io_bind (refresh_accounts env self False)
            (\<lambda>(accounts, self').
               if accounts = [] then
                 io_bind (perform env (Answer NoAccounts)) (\<lambda>_. io_return self')
               else
                 case args of
                   [] \<Rightarrow>
                     io_bind
                       (join_selected env self' ch silent
                          (\<lambda>i. if i < length accounts then Some (py_str (i + 1)) else None)
                          accounts)
                       (\<lambda>_. io_return self')
                 | a # _ \<Rightarrow>
                     (case resolve_account a accounts of
                        Inl e \<Rightarrow> io_raise e
                      | Inr None \<Rightarrow>
                          io_bind (perform env (Answer (SayNotFoundSelector a)))
                            (\<lambda>_. io_return self')
                      | Inr (Some idx) \<Rightarrow>
                          io_bind
                            (join_selected env self' ch silent [0 \<mapsto> a] [accounts ! idx])
                            (\<lambda>_. io_return self'))))"

subsection \<open>Sending and spamming\<close>

definition isspace_char :: "char \<Rightarrow> bool" where
  "isspace_char c =
     ((9 \<le> cp c \<and> cp c \<le> 13) \<or> (28 \<le> cp c \<and> cp c \<le> 32) \<or> cp c = 133 \<or> cp c = 160)"

definition strip :: "string \<Rightarrow> string" where
  \<comment> \<open>\<^verbatim>\<open>s.strip()\<close>\<close>
  "strip s = rev (dropWhile isspace_char (rev (dropWhile isspace_char s)))"

fun join_space :: "string list \<Rightarrow> string" where
  \<comment> \<open>\<^verbatim>\<open>" ".join(parts)\<close>\<close>
  "join_space [] = []"
| "join_space [x] = x"
| "join_space (x # y # ys) = x @ '' '' @ join_space (y # ys)"

fun for_each :: "('a \<Rightarrow> ('w, unit) io) \<Rightarrow> 'a list \<Rightarrow> ('w, unit) io" where
  \<comment> \<open>a \<^verbatim>\<open>for\<close> loop whose body neither breaks nor returns\<close>
  "for_each body [] = io_return ()"
| "for_each body (x # xs) = io_bind (body x) (\<lambda>_. for_each body xs)"

definition say_repeat :: "string list \<Rightarrow> py_error + nat \<times> string list" where
  \<comment> \<open>\<^verbatim>\<open>repeat\<close> and \<^verbatim>\<open>text_parts\<close> of \<^verbatim>\<open>saycmd\<close> after the optional trailing count\<close>
  "say_repeat text_parts =
     (if length text_parts > 1 \<and> isdigit (last text_parts) then
        (case count_of (last text_parts) of
           Inl e \<Rightarrow> Inl e
         | Inr repeat \<Rightarrow> Inr (repeat, butlast text_parts))
      else Inr (1, text_parts))"

definition say_step :: "'w env \<Rightarrow> client \<Rightarrow> string \<Rightarrow> nat option \<Rightarrow> nat \<Rightarrow> nat \<Rightarrow> ('w, unit) io" where
  "say_step env target_client text reply_to repeat i =
     io_bind (perform env (Call target_client (SendMessage text reply_to)))
       (\<lambda>_. if repeat > 3 then sleep env 0.35 else io_return ())"

definition say_sends :: "'w env \<Rightarrow> client \<Rightarrow> string \<Rightarrow> nat option \<Rightarrow> nat \<Rightarrow> ('w, unit) io" where
  \<comment> \<open>\<^verbatim>\<open>for _ in range(repeat)\<close>\<close>
  "say_sends env target_client text reply_to repeat =
     for_each (say_step env target_client text reply_to repeat) [0..<repeat]"

definition saycmd ::
  "'w env \<Rightarrow> coordinator \<Rightarrow> string list \<Rightarrow> nat option \<Rightarrow> ('w, coordinator) io" where
  \<comment> \<open>\<open>reply_to\<close>: the id of the message the triggering message replies to, if any\<close>
  "saycmd env self args0 reply_to =
     (case extract_silent args0 of
        (args, silent) \<Rightarrow>
          if length args < 2 then io_bind (perform env (Answer SayUsage)) (\<lambda>_. io_return self)
          else
            case say_repeat (tl args) of
              Inl e \<Rightarrow> io_raise e
            | Inr (repeat, text_parts) \<Rightarrow>
                if strip (join_space text_parts) = [] then
                  io_bind (perform env (Answer SayMissingText)) (\<lambda>_. io_return self)
                else
                  io_bind (refresh_accounts env self False)
                    (\<lambda>(accounts, self').
                       case resolve_account (hd args) accounts of
                         Inl e \<Rightarrow> io_raise e
                       | Inr None \<Rightarrow>
                           io_bind (perform env (Answer (SayNotFoundSelector (hd args))))
                             (\<lambda>_. io_return self')
                       | Inr (Some idx) \<Rightarrow>
                           io_bind
                             (say_sends env (client (accounts ! idx))
                                (strip (join_space text_parts)) reply_to repeat)
                             (\<lambda>_. io_bind
                                (if \<not> silent then perform env (Answer (SaySent (idx + 1) repeat))
                                 else perform env Delete)
                                (\<lambda>_. io_return self'))))"

definition spam_step ::
  "'w env \<Rightarrow> account list \<Rightarrow> string \<Rightarrow> nat option \<Rightarrow> nat \<Rightarrow> nat \<Rightarrow> ('w, unit) io" where
  \<comment> \<open>one round of the loop of \<^verbatim>\<open>spamacccmd\<close>; \<^verbatim>\<open>i % len(target_accounts)\<close> raises on
      an empty list\<close>
  "spam_step env target_accounts text reply_to count i =
     (if target_accounts = [] then io_raise ZeroDivisionError
      else
        io_bind
          (swallow
             (perform env
                (Call (client (target_accounts ! (i mod length target_accounts)))
                   (SendMessage text reply_to))))
          (\<lambda>_. io_bind
             (if length target_accounts > 1 then sleep env 0.15 else io_return ())
             (\<lambda>_. if count > 3 \<and> i mod length target_accounts = length target_accounts - 1
                   then sleep env 0.1 else io_return ())))"

definition spam_sends ::
  "'w env \<Rightarrow> account list \<Rightarrow> string \<Rightarrow> nat option \<Rightarrow> nat \<Rightarrow> ('w, unit) io" where
  \<comment> \<open>\<^verbatim>\<open>for i in range(count)\<close>\<close>
  "spam_sends env target_accounts text reply_to count =
     for_each (spam_step env target_accounts text reply_to count) [0..<count]"

definition spam_account ::
  "string list \<Rightarrow> account list \<Rightarrow> py_error + nat option \<times> string list" where
  \<comment> \<open>\<^verbatim>\<open>acc_idx\<close> and \<^verbatim>\<open>text_parts\<close> of \<^verbatim>\<open>spamacccmd\<close> after the optional leading account\<close>
  "spam_account text_parts accounts =
     (if length text_parts \<ge> 2 then
        (case resolve_account (hd text_parts) accounts of
           Inl e \<Rightarrow> Inl e
         | Inr None \<Rightarrow> Inr (None, text_parts)
         | Inr (Some idx) \<Rightarrow> Inr (Some idx, tl text_parts))
      else Inr (None, text_parts))"

definition spamacccmd ::
  "'w env \<Rightarrow> coordinator \<Rightarrow> string list \<Rightarrow> nat option \<Rightarrow> ('w, coordinator) io" where
  "spamacccmd env self args0 reply_to =
     (case extract_silent args0 of
        (args, silent) \<Rightarrow>
          if length args < 2 then io_bind (perform env (Answer SpamUsage)) (\<lambda>_. io_return self)
          else
            io_bind (refresh_accounts env self False)
              (\<lambda>(accounts, self').
                 if accounts = [] then
                   io_bind (perform env (Answer NoAccounts)) (\<lambda>_. io_return self')
                 else if \<not> isdigit (last args) then
                   io_bind (perform env (Answer SpamBadCount)) (\<lambda>_. io_return self')
                 else
                   case count_of (last args) of
                     Inl e \<Rightarrow> io_raise e
                   | Inr count \<Rightarrow>
                       (case spam_account (butlast args) accounts of
                          Inl e \<Rightarrow> io_raise e
                        | Inr (acc_idx, text_parts) \<Rightarrow>
                            if text_parts = [] then
                              io_bind (perform env (Answer SpamUsage)) (\<lambda>_. io_return self')
                            else
                              io_bind
                                (spam_sends env
                                   (case acc_idx of
                                      Some i \<Rightarrow> [accounts ! i]
                                    | None \<Rightarrow> accounts)
                                   (join_space text_parts) reply_to count)
                                (\<lambda>_. if silent then
                                        io_bind (swallow (perform env Delete))
                                          (\<lambda>_. io_return self')
                                      else
                                        io_bind (perform env (Answer (SpamSent acc_idx count)))
                                          (\<lambda>_. io_return self')))))"

definition sends :: "trace \<Rightarrow> client list" where
  \<comment> \<open>the clients of the \<^verbatim>\<open>send_message\<close> calls of a trace, in order\<close>
  "sends tr = concat (map (\<lambda>(a, r). case a of Call c (SendMessage t rt) \<Rightarrow> [c] | _ \<Rightarrow> []) tr)"

definition sleeps :: "trace \<Rightarrow> rat list" where
  \<comment> \<open>the durations of the pauses of a trace, in order\<close>
  "sleeps tr = concat (map (\<lambda>(a, r). case a of Sleep d \<Rightarrow> [d] | _ \<Rightarrow> []) tr)"

subsection \<open>Reading a trace\<close>

definition senders :: "action list \<Rightarrow> client list" where
  \<comment> \<open>\<open>sends\<close> on the actions alone\<close>
  "senders as = concat (map (\<lambda>a. case a of Call c (SendMessage t rt) \<Rightarrow> [c] | _ \<Rightarrow> []) as)"

definition spam_round :: "account list \<Rightarrow> string \<Rightarrow> nat option \<Rightarrow> nat \<Rightarrow> nat \<Rightarrow> action list" where
  \<comment> \<open>the actions of round \<open>i\<close> of the loop of \<^verbatim>\<open>spamacccmd\<close>, read off \<open>spam_step\<close>\<close>
  "spam_round target_accounts text reply_to count i =
     Call (client (target_accounts ! (i mod length target_accounts))) (SendMessage text reply_to)
       # (if length target_accounts > 1 then [Sleep 0.15] else [])
       @ (if count > 3 \<and> i mod length target_accounts = length target_accounts - 1
          then [Sleep 0.1] else [])"

definition the_clients :: "client option list \<Rightarrow> client list" where
  \<comment> \<open>the sessions of a client list that are clients at all\<close>
  "the_clients cs = concat (map (\<lambda>c. case c of None \<Rightarrow> [] | Some x \<Rightarrow> [x]) cs)"

definition asked :: "trace \<Rightarrow> client list" where
  \<comment> \<open>the clients asked for their identity, in order\<close>
  "asked tr = concat (map (\<lambda>(a, r). case a of Call c GetMe \<Rightarrow> [c] | _ \<Rightarrow> []) tr)"

definition identities :: "trace \<Rightarrow> account list" where
  \<comment> \<open>the roster entries of the identity queries that were answered, in order\<close>
  "identities tr =
     concat (map (\<lambda>(a, r). case a of
                    Call c GetMe \<Rightarrow>
                      (case r of None \<Rightarrow> [] | Some me \<Rightarrow> [\<lparr>client = c, user = me_of me\<rparr>])
                  | _ \<Rightarrow> []) tr)"

subsection \<open>Example values\<close>

definition acc_a :: account where
  "acc_a = \<lparr>client = 1, user = \<lparr>user_id = Some 101, username = Some ''alpha''\<rparr>\<rparr>"

definition acc_b :: account where
  "acc_b = \<lparr>client = 2, user = \<lparr>user_id = Some 102, username = Some ''asia''\<rparr>\<rparr>"

definition acc_c :: account where
  "acc_c = \<lparr>client = 3, user = \<lparr>user_id = Some 103, username = None\<rparr>\<rparr>"

definition fresh_self :: coordinator where
  \<comment> \<open>a coordinator running as client 1 whose cache holds the three accounts\<close>
  "fresh_self =
     \<lparr>self_client = Some 1, allclients = Some [1, 2, 3],
      accounts_cache = [acc_a, acc_b, acc_c], accounts_cache_ts = 0\<rparr>"

definition quiet_env :: "unit env" where
  \<comment> \<open>every call returns; the clock stands at 0\<close>
  "quiet_env = \<lparr>respond = (\<lambda>a w. (Some Done, w)), clock = (\<lambda>w. 0)\<rparr>"


definition b_cannot_report_env :: "unit env" where
  \<comment> \<open>every report request of client 2 raises; every other call returns\<close>
  "b_cannot_report_env =
     \<lparr>respond = (\<lambda>a w. (case a of
                            Call c (ReportRequest reason_name) \<Rightarrow>
                              if c = 2 then None else Some Done
                          | _ \<Rightarrow> Some Done, w)),
      clock = (\<lambda>w. 0)\<rparr>"

definition b_not_member_env :: "unit env" where
  \<comment> \<open>every call of client 2 raises; every other call returns\<close>
  "b_not_member_env =
     \<lparr>respond = (\<lambda>a w. (case a of Call c req \<Rightarrow> if c = 2 then None else Some Done
                          | _ \<Rightarrow> Some Done, w)),
      clock = (\<lambda>w. 0)\<rparr>"

definition own_session_down_env :: "unit env" where
  \<comment> \<open>\<^verbatim>\<open>get_me\<close> raises on client 1 and returns a user elsewhere; the clock stands at 100\<close>
  "own_session_down_env =
     \<lparr>respond = (\<lambda>a w. (case a of
                            Call c GetMe \<Rightarrow>
                              if c = 1 then None
                              else Some (Me \<lparr>user_id = Some (100 + int c), username = None\<rparr>)
                          | _ \<Rightarrow> Some Done, w)),
      clock = (\<lambda>w. 100)\<rparr>"

section \<open>Properties\<close>

subsection \<open>Digit strings\<close>

lemma cp_char_of: "n < 256 \<Longrightarrow> cp (char_of n) = n"
  by (simp add: cp_def)

lemma ascii_digit_char_of: "d < 10 \<Longrightarrow> ascii_digit (char_of (48 + (d::nat)))"
  by (simp add: ascii_digit_def cp_char_of)

lemma not_space_digit: "ascii_digit c \<Longrightarrow> \<not> int_space c"
  by (auto simp: ascii_digit_def int_space_def)

lemma ascii_digit_no_sign: "ascii_digit c \<Longrightarrow> c \<noteq> CHR ''-'' \<and> c \<noteq> CHR ''+''"
  by (auto simp: ascii_digit_def cp_def)

lemma int_strip_digits:
  assumes "s \<noteq> []" "list_all ascii_digit s"
  shows "int_strip s = s"
proof -
  from assms have "\<not> int_space (hd s)" "\<not> int_space (last s)"
    by (auto simp: list_all_iff not_space_digit)
  then have "dropWhile int_space s = s" "dropWhile int_space (rev s) = rev s"
    using assms(1) by (simp_all add: dropWhile_eq_self_iff hd_rev)
  then show ?thesis by (simp add: int_strip_def)
qed

lemma digit_groups_digits: "list_all ascii_digit s \<Longrightarrow> digit_groups b s = (b \<or> s \<noteq> [])"
  by (induction s arbitrary: b) auto

lemma py_int_digits:
  assumes "s \<noteq> []" "list_all ascii_digit s"
  shows "py_int s = Some (int (digits_value s))"
proof -
  obtain c cs where s: "s = c # cs" using assms(1) by (cases s) auto
  then have "ascii_digit c" using assms(2) by simp
  then have "c \<noteq> CHR ''-''" "c \<noteq> CHR ''+''" using ascii_digit_no_sign by auto
  moreover have "magnitude s = Some (digits_value s)"
    using assms by (simp add: magnitude_def digit_groups_digits)
  ultimately show ?thesis using assms s by (simp add: py_int_def int_strip_digits)
qed

lemma isdigit_digits: "s \<noteq> [] \<Longrightarrow> list_all ascii_digit s \<Longrightarrow> isdigit s"
  by (auto simp: isdigit_def isdigit_char_def list_all_iff)

lemma py_str_digits: "list_all ascii_digit (py_str k)"
  by (induction k rule: py_str.induct) (subst py_str.simps, auto simp: ascii_digit_char_of)

lemma py_str_nonempty: "py_str k \<noteq> []"
  by (subst py_str.simps) simp

lemma digits_value_snoc:
  "ascii_digit c \<Longrightarrow> digits_value (s @ [c]) = 10 * digits_value s + (cp c - 48)"
  by (simp add: digits_value_def)

lemma digits_value_py_str: "digits_value (py_str k) = k"
proof (induction k rule: py_str.induct)
  case (1 k)
  show ?case
  proof (cases "k < 10")
    case True
    then show ?thesis
      by (subst py_str.simps) (simp add: digits_value_def ascii_digit_char_of cp_char_of)
  next
    case False
    then have "digits_value (py_str (k div 10)) = k div 10" using 1 by simp
    then show ?thesis using False
      by (subst py_str.simps) (simp add: digits_value_snoc ascii_digit_char_of cp_char_of)
  qed
qed

lemma py_int_py_str: "py_int (py_str k) = Some (int k)"
  by (simp add: py_int_digits py_str_nonempty py_str_digits digits_value_py_str)

lemma isdigit_py_str: "isdigit (py_str k)"
  by (simp add: isdigit_digits py_str_nonempty py_str_digits)

subsection \<open>Selector resolution\<close>

lemma first_index_Some:
  "first_index p xs = Some i \<Longrightarrow> i < length xs \<and> p (xs ! i) \<and> (\<forall>j<i. \<not> p (xs ! j))"
proof (induction xs arbitrary: i)
  case Nil
  then show ?case by simp
next
  case (Cons x xs)
  show ?case
  proof (cases "p x")
    case True
    with Cons.prems show ?thesis by simp
  next
    case False
    with Cons.prems obtain i' where i': "first_index p xs = Some i'" "i = Suc i'" by auto
    from Cons.IH [OF i'(1)] False i'(2) show ?thesis
      by (auto simp: nth_Cons split: nat.splits)
  qed
qed

lemma first_index_None: "first_index p xs = None \<longleftrightarrow> (\<forall>x\<in>set xs. \<not> p x)"
  by (induction xs) auto

lemma isdigit_no_dash: "isdigit s \<Longrightarrow> lstrip CHR ''-'' s = s"
  by (cases s) (auto simp: isdigit_def isdigit_char_def ascii_digit_def cp_def lstrip_def)

lemma not_digits_by_position:
  "\<not> isdigit (lstrip CHR ''-'' raw) \<Longrightarrow> by_position raw R = Inr None"
  using isdigit_no_dash [of raw] by (auto simp: by_position_def)

text \<open>
  C1 (the code departs from the claim). Resolution is claimed to be total: for every
  roster and selector it returns a position or not-found and never raises, also for
  selectors of several leading sign characters followed by digits. On the selector
  \<^verbatim>\<open>--5\<close> the guard \<^verbatim>\<open>raw.lstrip("-").isdigit()\<close> holds, since \<^verbatim>\<open>lstrip\<close> removes both signs,
  and \<^verbatim>\<open>int(raw)\<close> then raises \<^verbatim>\<open>ValueError\<close>, whatever the roster.
\<close>

theorem resolve_account_raises_on_two_signs:
  "resolve_account ''--5'' accounts = Inl ValueError"
  by (simp add: resolve_account_def by_position_def by_user_id_def isdigit_def isdigit_char_def
      ascii_digit_def cp_def lstrip_def py_int_def int_strip_def int_space_def magnitude_def)

text \<open>
  C3. For every roster \<open>R\<close> and every \<open>k\<close> with \<open>1 \<le> k \<le> len(R)\<close>, resolving the decimal
  digit string of \<open>k\<close> returns position \<open>k - 1\<close>. Nothing is assumed about the entries, so
  the position wins also when \<open>k\<close> is the numeric id of some entry.
\<close>

theorem resolve_position_first:
  "1 \<le> k \<Longrightarrow> k \<le> length R \<Longrightarrow> resolve_account (py_str k) R = Inr (Some (k - 1))"
  by (simp add: resolve_account_def by_position_def isdigit_py_str py_int_py_str py_str_nonempty
      nat_diff_distrib')

theorem resolve_position_first_witness:
  "(1::nat) \<le> 2
   \<and> 2 \<le> length [\<lparr>client = 10, user = \<lparr>user_id = Some 2, username = None\<rparr>\<rparr>,
         \<lparr>client = 11, user = \<lparr>user_id = Some 7, username = Some ''asia''\<rparr>\<rparr>,
         \<lparr>client = 12, user = \<lparr>user_id = Some 1, username = None\<rparr>\<rparr>]
   \<and> resolve_account ''2''
        [\<lparr>client = 10, user = \<lparr>user_id = Some 2, username = None\<rparr>\<rparr>,
         \<lparr>client = 11, user = \<lparr>user_id = Some 7, username = Some ''asia''\<rparr>\<rparr>,
         \<lparr>client = 12, user = \<lparr>user_id = Some 1, username = None\<rparr>\<rparr>] = Inr (Some 1)"
proof -
  have s: "py_str 2 = ''2''" by code_simp
  show ?thesis
    using resolve_position_first [of 2
        "[\<lparr>client = 10, user = \<lparr>user_id = Some 2, username = None\<rparr>\<rparr>,
          \<lparr>client = 11, user = \<lparr>user_id = Some 7, username = Some ''asia''\<rparr>\<rparr>,
          \<lparr>client = 12, user = \<lparr>user_id = Some 1, username = None\<rparr>\<rparr>]"]
    by (simp add: s)
qed

text \<open>
  C4 (amended). The claim has the selector normalised by lowercasing and stripping exactly
  one leading \<open>@\<close>. The code strips every leading \<open>@\<close>: on \<^verbatim>\<open>@@foo\<close> it finds the entry
  with handle \<^verbatim>\<open>foo\<close>, where the normalisation of the claim leaves \<^verbatim>\<open>@foo\<close>, which no
  entry matches.
\<close>

theorem strip_one_at_counterexample:
  "resolve_account ''@@foo''
     [\<lparr>client = 10, user = \<lparr>user_id = Some 2, username = Some ''foo''\<rparr>\<rparr>] = Inr (Some 0)
   \<and> by_username (spec_normalize ''@@foo'')
       [\<lparr>client = 10, user = \<lparr>user_id = Some 2, username = Some ''foo''\<rparr>\<rparr>] = None"
  by code_simp

text \<open>
  C4 as amended. For every roster, the handle step is reached for every non-empty
  selector on which the position step and the id step find nothing; that is so for every
  selector that is not a digit string once its leading \<open>-\<close> signs are removed, and also for
  a digit string that is no position and no id of the roster. The step lowercases the
  selector, strips all its leading \<open>@\<close>, and returns the first entry, in roster order, that
  has a non-empty handle whose lowercase form equals that value, or not-found when there
  is none; \<^verbatim>\<open>@Foo\<close> and \<^verbatim>\<open>foo\<close> resolve alike on every roster.
\<close>

theorem resolve_by_handle:
  "(selector \<noteq> [] \<and> by_position selector R = Inr None \<and> by_user_id selector R = Inr None \<longrightarrow>
      resolve_account selector R = Inr (by_username (lstrip CHR ''@'' (lower selector)) R))
   \<and> (\<not> isdigit (lstrip CHR ''-'' selector) \<longrightarrow>
        by_position selector R = Inr None \<and> by_user_id selector R = Inr None)
   \<and> (by_username sel R = Some i \<longrightarrow>
        i < length R \<and> handle_matches sel (R ! i) \<and> (\<forall>j<i. \<not> handle_matches sel (R ! j)))
   \<and> (by_username sel R = None \<longleftrightarrow> (\<forall>acc\<in>set R. \<not> handle_matches sel acc))
   \<and> handle_matches sel acc = (\<exists>u. username (user acc) = Some u \<and> u \<noteq> [] \<and> lower u = sel)
   \<and> resolve_account ''@Foo'' R = resolve_account ''foo'' R"
proof (intro conjI impI)
  assume "selector \<noteq> [] \<and> by_position selector R = Inr None \<and> by_user_id selector R = Inr None"
  then show "resolve_account selector R = Inr (by_username (lstrip CHR ''@'' (lower selector)) R)"
    by (simp add: resolve_account_def)
next
  assume a: "\<not> isdigit (lstrip CHR ''-'' selector)"
  then show "by_position selector R = Inr None" by (rule not_digits_by_position)
  from a show "by_user_id selector R = Inr None" by (simp add: by_user_id_def)
next
  assume "by_username sel R = Some i"
  then show "i < length R" "handle_matches sel (R ! i)" "\<forall>j<i. \<not> handle_matches sel (R ! j)"
    using first_index_Some [of "handle_matches sel" R i] by (simp_all add: by_username_def)
next
  show "by_username sel R = None \<longleftrightarrow> (\<forall>acc\<in>set R. \<not> handle_matches sel acc)"
    by (simp add: by_username_def first_index_None)
next
  show "handle_matches sel acc = (\<exists>u. username (user acc) = Some u \<and> u \<noteq> [] \<and> lower u = sel)"
    by (auto simp: handle_matches_def split: option.splits)
next
  have a: "\<not> isdigit (lstrip CHR ''-'' ''@Foo'')" "\<not> isdigit (lstrip CHR ''-'' ''foo'')"
    by (simp_all add: isdigit_def isdigit_char_def ascii_digit_def cp_def lstrip_def)
  have b: "lstrip CHR ''@'' (lower ''@Foo'') = ''foo''" "lstrip CHR ''@'' (lower ''foo'') = ''foo''"
    by code_simp+
  show "resolve_account ''@Foo'' R = resolve_account ''foo'' R"
    using a by (simp add: resolve_account_def not_digits_by_position by_user_id_def b)
qed

theorem resolve_by_handle_witness:
  "''42'' \<noteq> []
   \<and> by_position ''42''
        [\<lparr>client = 10, user = \<lparr>user_id = Some 2, username = None\<rparr>\<rparr>,
         \<lparr>client = 11, user = \<lparr>user_id = Some 7, username = Some ''42''\<rparr>\<rparr>,
         \<lparr>client = 12, user = \<lparr>user_id = Some 1, username = Some ''ASIA''\<rparr>\<rparr>] = Inr None
   \<and> by_user_id ''42''
        [\<lparr>client = 10, user = \<lparr>user_id = Some 2, username = None\<rparr>\<rparr>,
         \<lparr>client = 11, user = \<lparr>user_id = Some 7, username = Some ''42''\<rparr>\<rparr>,
         \<lparr>client = 12, user = \<lparr>user_id = Some 1, username = Some ''ASIA''\<rparr>\<rparr>] = Inr None
   \<and> resolve_account ''42''
        [\<lparr>client = 10, user = \<lparr>user_id = Some 2, username = None\<rparr>\<rparr>,
         \<lparr>client = 11, user = \<lparr>user_id = Some 7, username = Some ''42''\<rparr>\<rparr>,
         \<lparr>client = 12, user = \<lparr>user_id = Some 1, username = Some ''ASIA''\<rparr>\<rparr>] = Inr (Some 1)
   \<and> \<not> isdigit (lstrip CHR ''-'' ''@@Asia'')
   \<and> resolve_account ''@@Asia''
        [\<lparr>client = 10, user = \<lparr>user_id = Some 2, username = None\<rparr>\<rparr>,
         \<lparr>client = 11, user = \<lparr>user_id = Some 7, username = Some ''42''\<rparr>\<rparr>,
         \<lparr>client = 12, user = \<lparr>user_id = Some 1, username = Some ''ASIA''\<rparr>\<rparr>] = Inr (Some 2)"
proof -
  let ?R = "[\<lparr>client = 10, user = \<lparr>user_id = Some 2, username = None\<rparr>\<rparr>,
         \<lparr>client = 11, user = \<lparr>user_id = Some 7, username = Some ''42''\<rparr>\<rparr>,
         \<lparr>client = 12, user = \<lparr>user_id = Some 1, username = Some ''ASIA''\<rparr>\<rparr>]"
  have p: "by_position ''42'' ?R = Inr None" "by_user_id ''42'' ?R = Inr None" by code_simp+
  have a: "\<not> isdigit (lstrip CHR ''-'' ''@@Asia'')" by code_simp
  have b: "by_username (lstrip CHR ''@'' (lower ''42'')) ?R = Some 1"
          "by_username (lstrip CHR ''@'' (lower ''@@Asia'')) ?R = Some 2"
    by code_simp+
  have n: "''42'' \<noteq> []" "''@@Asia'' \<noteq> []" by simp_all
  from resolve_by_handle [of "''42''" ?R "''42''" 1 acc_a] p n b
  have 1: "resolve_account ''42'' ?R = Inr (Some 1)" by simp
  from resolve_by_handle [of "''@@Asia''" ?R "''42''" 1 acc_a] a n b
  have 2: "resolve_account ''@@Asia'' ?R = Inr (Some 2)" by simp
  from 1 2 p a n show ?thesis by simp
qed

subsection \<open>The interleaved repeat dispatcher\<close>

lemma spam_step_run:
  "targets \<noteq> [] \<Longrightarrow>
   \<exists>w' rs. spam_step env targets text rt count i (w, tr) = (Inr (), (w', tr @ rs))
       \<and> map fst rs = spam_round targets text rt count i"
  by (auto simp: spam_step_def spam_round_def io_bind_def swallow_def io_attempt_def perform_def
      sleep_def io_return_def split: prod.splits option.splits)

lemma for_each_run:
  assumes "\<And>x w tr. \<exists>w' rs. body x (w, tr) = (Inr (), (w', tr @ rs)) \<and> map fst rs = f x"
  shows "\<exists>w' rs. for_each body xs (w, tr) = (Inr (), (w', tr @ rs)) \<and> map fst rs = concat (map f xs)"
proof (induction xs arbitrary: w tr)
  case Nil
  then show ?case by (simp add: io_return_def)
next
  case (Cons x xs)
  from assms obtain w1 rs1 where 1: "body x (w, tr) = (Inr (), (w1, tr @ rs1))" "map fst rs1 = f x"
    by blast
  from Cons.IH obtain w2 rs2 where
    2: "for_each body xs (w1, tr @ rs1) = (Inr (), (w2, (tr @ rs1) @ rs2))" "map fst rs2 = concat (map f xs)"
    by blast
  have "for_each body (x # xs) (w, tr) = (Inr (), (w2, tr @ (rs1 @ rs2)))"
    using 1 2 by (simp add: io_bind_def)
  moreover have "map fst (rs1 @ rs2) = concat (map f (x # xs))" using 1 2 by simp
  ultimately show ?case by blast
qed

lemma spam_sends_run:
  "targets \<noteq> [] \<Longrightarrow>
   \<exists>w' rs. spam_sends env targets text rt count (w, tr) = (Inr (), (w', tr @ rs))
       \<and> map fst rs = concat (map (spam_round targets text rt count) [0..<count])"
  unfolding spam_sends_def by (rule for_each_run) (rule spam_step_run)

lemma sends_actions: "sends tr = senders (map fst tr)"
  by (induction tr) (auto simp: sends_def senders_def split: action.splits request.splits)

lemma senders_append: "senders (xs @ ys) = senders xs @ senders ys"
  by (simp add: senders_def)

lemma senders_rounds:
  "senders (concat (map (spam_round targets text rt count) is)) =
   map (\<lambda>k. client (targets ! (k mod length targets))) is"
  by (induction "is") (simp_all add: senders_def spam_round_def)

lemma sends_append: "sends (xs @ ys) = sends xs @ sends ys"
  by (simp add: sends_def)

lemma say_once:
  "sends (snd (snd (say_sends env cl text rt 1 (w, tr)))) = sends tr @ [cl]"
  by (simp add: say_sends_def say_step_def io_bind_def perform_def io_return_def sends_append
      split: prod.splits option.splits sum.splits)
     (auto simp: sends_def)

lemma count_of_zero: "count_of ''0'' = Inr 1"
  by code_simp

lemma spam_sends_senders:
  assumes "targets \<noteq> []"
  shows "fst (spam_sends env targets text rt count (w, tr)) = Inr ()"
    and "sends (snd (snd (spam_sends env targets text rt count (w, tr)))) =
           sends tr @ map (\<lambda>k. client (targets ! (k mod length targets))) [0..<count]"
proof -
  from spam_sends_run [OF assms, of env "text" rt count w tr] obtain w' rs where
    r: "spam_sends env targets text rt count (w, tr) = (Inr (), (w', tr @ rs))"
       "map fst rs = concat (map (spam_round targets text rt count) [0..<count])"
    by blast
  from r show "fst (spam_sends env targets text rt count (w, tr)) = Inr ()" by simp
  from r show "sends (snd (snd (spam_sends env targets text rt count (w, tr)))) =
           sends tr @ map (\<lambda>k. client (targets ! (k mod length targets))) [0..<count]"
    by (simp add: sends_actions senders_append senders_rounds)
qed

text \<open>
  C6. For every non-empty list of target accounts and every count, the loop of
  \<^verbatim>\<open>spamacccmd\<close> returns normally and its \<open>k\<close>-th send (counted from 0) is attempted by
  the account at position \<open>k mod len(accounts)\<close>, whatever the sends answer; five sends
  over two accounts go out as first, second, first, second, first.
\<close>

theorem spam_round_robin:
  "targets \<noteq> [] \<Longrightarrow>
   fst (spam_sends env targets text rt count (w, tr)) = Inr ()
   \<and> sends (snd (snd (spam_sends env targets text rt count (w, tr)))) =
       sends tr @ map (\<lambda>k. client (targets ! (k mod length targets))) [0..<count]"
  by (simp add: spam_sends_senders)

theorem spam_round_robin_witness:
  "[acc_a, acc_b] \<noteq> []
   \<and> fst (spam_sends b_not_member_env [acc_a, acc_b] ''hi'' None 5 ((), [])) = Inr ()
   \<and> sends (snd (snd (spam_sends b_not_member_env [acc_a, acc_b] ''hi'' None 5 ((), []))))
       = [1, 2, 1, 2, 1]"
proof -
  have e: "map (\<lambda>k. client ([acc_a, acc_b] ! (k mod length [acc_a, acc_b]))) [0..<5]
             = [1, 2, 1, 2, 1]"
    by code_simp
  show ?thesis
    using spam_round_robin [of "[acc_a, acc_b]" b_not_member_env "''hi''" None 5 "()" "[]"]
    unfolding e by (simp add: sends_def)
qed

text \<open>
  C9 (amended). The claim has the pause at the end of a round longer than the delay
  between sends. The code sleeps 0.15 after every send when more than one account takes
  part, and 0.1 more at the end of a round when the count exceeds 3: over two accounts and
  four sends the pauses are 0.15, 0.15, 0.1, 0.15, 0.15, 0.1, and 0.1 is not longer than
  0.15.
\<close>

theorem round_pause_counterexample:
  "sleeps (snd (snd (spam_sends quiet_env [acc_a, acc_b] ''hi'' None 4 ((), []))))
     = [0.15, 0.15, 0.1, 0.15, 0.15, 0.1]
   \<and> \<not> (0.15::rat) < 0.1"
  by code_simp

text \<open>
  C9 as amended. For every non-empty list of target accounts and every count \<open>n\<close>, the
  loop performs, for \<open>i = 0, ..., n - 1\<close> in turn: the send of account \<open>i mod len\<close>; then a
  pause of 0.15 when more than one account takes part; then, when \<open>n\<close> exceeds 3 and the
  send was the last of a round (\<open>i mod len = len - 1\<close>), one more pause of 0.1, which is
  shorter than the pause between sends.
\<close>

theorem spam_pacing:
  "targets \<noteq> [] \<Longrightarrow>
   fst (spam_sends env targets text rt count (w, tr)) = Inr ()
   \<and> map fst (snd (snd (spam_sends env targets text rt count (w, tr)))) =
       map fst tr @ concat (map (\<lambda>i.
          Call (client (targets ! (i mod length targets))) (SendMessage text rt)
            # (if length targets > 1 then [Sleep 0.15] else [])
            @ (if count > 3 \<and> i mod length targets = length targets - 1 then [Sleep 0.1] else []))
        [0..<count])
   \<and> (0.1::rat) < 0.15"
proof -
  assume "targets \<noteq> []"
  from spam_sends_run [OF this, of env "text" rt count w tr] obtain w' rs where
    r: "spam_sends env targets text rt count (w, tr) = (Inr (), (w', tr @ rs))"
       "map fst rs = concat (map (spam_round targets text rt count) [0..<count])"
    by blast
  have "spam_round targets text rt count = (\<lambda>i.
          Call (client (targets ! (i mod length targets))) (SendMessage text rt)
            # (if length targets > 1 then [Sleep 0.15] else [])
            @ (if count > 3 \<and> i mod length targets = length targets - 1 then [Sleep 0.1] else []))"
    by (rule ext) (simp add: spam_round_def)
  with r show ?thesis by simp
qed

theorem spam_pacing_witness:
  "[acc_a, acc_b] \<noteq> []
   \<and> map fst (snd (snd (spam_sends quiet_env [acc_a, acc_b] ''hi'' None 4 ((), [])))) =
      [Call 1 (SendMessage ''hi'' None), Sleep 0.15,
       Call 2 (SendMessage ''hi'' None), Sleep 0.15, Sleep 0.1,
       Call 1 (SendMessage ''hi'' None), Sleep 0.15,
       Call 2 (SendMessage ''hi'' None), Sleep 0.15, Sleep 0.1]"
proof -
  have u: "[0..<4] = [0, 1, 2, 3::nat]" by code_simp
  have m: "(2::nat) mod Suc (Suc 0) = 0" "(3::nat) mod Suc (Suc 0) = 1" by code_simp+
  show ?thesis
    using spam_pacing [of "[acc_a, acc_b]" quiet_env "''hi''" None 4 "()" "[]"]
    by (simp add: u m acc_a_def acc_b_def)
qed

text \<open>
  The count of a token that \<^verbatim>\<open>int\<close> parses to \<open>v\<close> is \<open>max(1, v)\<close>, which is at least 1,
  in \<^verbatim>\<open>spamacccmd\<close> and, as the trailing token after at least one text token, in
  \<^verbatim>\<open>saycmd\<close>; every non-empty string of ASCII digits is such a token. The token \<^verbatim>\<open>0\<close> gives
  the count 1, and with the count 1 either loop attempts exactly one send.
\<close>

lemma count_at_least_one:
  "(py_int token = Some v \<longrightarrow> count_of token = Inr (nat (max 1 v)) \<and> 1 \<le> nat (max 1 v))
   \<and> (py_int token = None \<longrightarrow> count_of token = Inl ValueError)
   \<and> (token \<noteq> [] \<and> list_all ascii_digit token \<longrightarrow>
        isdigit token \<and> py_int token = Some (int (digits_value token)))
   \<and> (parts \<noteq> [] \<and> isdigit token \<and> py_int token = Some v \<longrightarrow>
        say_repeat (parts @ [token]) = Inr (nat (max 1 v), parts))
   \<and> count_of ''0'' = Inr 1
   \<and> sends (snd (snd (say_sends env cl text rt 1 (w, tr)))) = sends tr @ [cl]
   \<and> (targets \<noteq> [] \<longrightarrow>
        sends (snd (snd (spam_sends env targets text rt 1 (w, tr)))) =
          sends tr @ [client (targets ! 0)])"
proof (intro conjI impI)
  show "count_of ''0'' = Inr 1" by (rule count_of_zero)
  show "sends (snd (snd (say_sends env cl text rt 1 (w, tr)))) = sends tr @ [cl]"
    by (rule say_once)
next
  assume "py_int token = Some v"
  then show "count_of token = Inr (nat (max 1 v))" "1 \<le> nat (max 1 v)"
    by (simp_all add: count_of_def)
next
  assume "py_int token = None"
  then show "count_of token = Inl ValueError" by (simp add: count_of_def)
next
  assume a: "token \<noteq> [] \<and> list_all ascii_digit token"
  then show "isdigit token" "py_int token = Some (int (digits_value token))"
    by (simp_all add: isdigit_digits py_int_digits)
next
  assume "parts \<noteq> [] \<and> isdigit token \<and> py_int token = Some v"
  then show "say_repeat (parts @ [token]) = Inr (nat (max 1 v), parts)"
    by (cases parts) (simp_all add: say_repeat_def count_of_def)
next
  assume t: "targets \<noteq> []"
  have "[0..<1] = [0::nat]" by simp
  with spam_sends_senders(2) [OF t, of env "text" rt 1 w tr]
  show "sends (snd (snd (spam_sends env targets text rt 1 (w, tr)))) =
          sends tr @ [client (targets ! 0)]"
    by simp
qed

lemma count_at_least_one_example:
  "py_int ''0'' = Some 0 \<and> count_of ''0'' = Inr 1
   \<and> [''hi''] \<noteq> [] \<and> isdigit ''0'' \<and> say_repeat [''hi'', ''0''] = Inr (1, [''hi''])
   \<and> sends (snd (snd (saycmd quiet_env fresh_self [''2'', ''hi'', ''0''] None ((), [])))) = [2]
   \<and> sends (snd (snd (spamacccmd quiet_env fresh_self [''hi'', ''0''] None ((), [])))) = [1]"
proof -
  have a: "py_int ''0'' = Some 0" "isdigit ''0''" by code_simp+
  have c: "sends (snd (snd (saycmd quiet_env fresh_self [''2'', ''hi'', ''0''] None ((), [])))) = [2]"
    by code_simp
  have d: "sends (snd (snd (spamacccmd quiet_env fresh_self [''hi'', ''0''] None ((), [])))) = [1]"
    by code_simp
  show ?thesis
    using count_at_least_one [of "''0''" 0 "[''hi'']" quiet_env 2 "''hi''" None "()" "[]" "[acc_a]"]
      a c d
    by simp
qed

text \<open>
  C10 (the code departs from the claim). Every count token is claimed to give a count of
  at least 1, hence at least one send. Both commands guard \<^verbatim>\<open>int\<close> by \<^verbatim>\<open>isdigit\<close>, which
  also accepts the superscript digits that \<^verbatim>\<open>int\<close> rejects: on the count token U+00B2
  \<^verbatim>\<open>saycmd\<close> raises \<^verbatim>\<open>ValueError\<close> before any call, in every environment, and \<^verbatim>\<open>spamacccmd\<close>
  raises it in place of its reply that the count must be a number; neither sends
  anything.
\<close>

theorem count_token_superscript_raises:
  "isdigit [CHR 0xB2] \<and> py_int [CHR 0xB2] = None
   \<and> saycmd env self [''1'', ''hi'', [CHR 0xB2]] reply_to (w, tr) = (Inl ValueError, (w, tr))
   \<and> spamacccmd quiet_env fresh_self [''hi'', [CHR 0xB2]] None ((), []) = (Inl ValueError, ((), []))"
proof -
  have a: "isdigit [CHR 0xB2]" "py_int [CHR 0xB2] = None" by code_simp+
  have e: "extract_silent [''1'', ''hi'', [CHR 0xB2]] = ([''1'', ''hi'', [CHR 0xB2]], False)"
    by code_simp
  have r: "say_repeat [''hi'', [CHR 0xB2]] = Inl ValueError"
    using a by (simp add: say_repeat_def count_of_def)
  have s: "saycmd env self [''1'', ''hi'', [CHR 0xB2]] reply_to (w, tr) = (Inl ValueError, (w, tr))"
    by (simp add: saycmd_def e r io_raise_def)
  have p: "spamacccmd quiet_env fresh_self [''hi'', [CHR 0xB2]] None ((), []) = (Inl ValueError, ((), []))"
    by code_simp
  from a s p show ?thesis by simp
qed

subsection \<open>The membership guarantor\<close>

















subsection \<open>The roster cache\<close>

lemma collect_accounts_run:
  "\<exists>w' rs. collect_accounts env cs acc (w, tr) = (Inr (acc @ identities rs), (w', tr @ rs))
      \<and> map fst rs = map (\<lambda>c. Call c GetMe) (the_clients cs)"
proof (induction cs arbitrary: acc w tr)
  case Nil
  show ?case by (simp add: io_return_def identities_def the_clients_def)
next
  case (Cons c cs)
  show ?case
  proof (cases c)
    case None
    with Cons [of acc w tr] show ?thesis by (simp add: the_clients_def)
  next
    case (Some x)
    obtain r w1 where r: "respond env (Call x GetMe) w = (r, w1)"
      by (cases "respond env (Call x GetMe) w")
    define acc1 where "acc1 = acc @ identities [(Call x GetMe, r)]"
    from Cons [of acc1 w1 "tr @ [(Call x GetMe, r)]"] obtain w2 rs where
      2: "collect_accounts env cs acc1 (w1, tr @ [(Call x GetMe, r)]) =
            (Inr (acc1 @ identities rs), (w2, (tr @ [(Call x GetMe, r)]) @ rs))"
         "map fst rs = map (\<lambda>c. Call c GetMe) (the_clients cs)"
      by blast
    have "collect_accounts env (c # cs) acc (w, tr) =
            (Inr (acc @ identities ((Call x GetMe, r) # rs)), (w2, tr @ ((Call x GetMe, r) # rs)))"
      using Some r 2(1)
      by (cases r) (simp_all add: acc1_def io_bind_def io_attempt_def perform_def identities_def)
    moreover have "map fst ((Call x GetMe, r) # rs) = map (\<lambda>c. Call c GetMe) (the_clients (c # cs))"
      using Some 2(2) by (simp add: the_clients_def)
    ultimately show ?thesis by blast
  qed
qed

lemma refresh_requery:
  assumes "\<not> cache_fresh env self force w"
  shows "\<exists>w' rs. refresh_accounts env self force (w, tr) =
           (Inr (identities rs,
                 self\<lparr>accounts_cache := identities rs, accounts_cache_ts := clock env w'\<rparr>),
            (w', tr @ rs))
         \<and> map fst rs = map (\<lambda>c. Call c GetMe) (the_clients (configured_clients self))"
proof -
  from collect_accounts_run [of env "configured_clients self" "[]" w tr] obtain w' rs where
    c: "collect_accounts env (configured_clients self) [] (w, tr) = (Inr (identities rs), (w', tr @ rs))"
       "map fst rs = map (\<lambda>c. Call c GetMe) (the_clients (configured_clients self))"
    by auto
  have "refresh_accounts env self force (w, tr) =
           (Inr (identities rs,
                 self\<lparr>accounts_cache := identities rs, accounts_cache_ts := clock env w'\<rparr>),
            (w', tr @ rs))"
    using assms c(1) by (simp add: refresh_accounts_def io_bind_def monotonic_def io_return_def)
  with c(2) show ?thesis by blast
qed

lemma refresh_cached:
  "cache_fresh env self force w \<Longrightarrow>
   refresh_accounts env self force (w, tr) = (Inr (accounts_cache self, self), (w, tr))"
  by (simp add: refresh_accounts_def)

lemma refresh_result_is_cache:
  assumes "refresh_accounts env self force (w, tr) = (Inr (accs, self'), s')"
  shows "accounts_cache self' = accs"
proof (cases "cache_fresh env self force w")
  case True
  with assms show ?thesis by (auto simp: refresh_cached)
next
  case False
  from refresh_requery [OF False, of tr] assms show ?thesis by auto
qed

lemma the_clients_nonempty: "the_clients (configured_clients self) = [] \<longleftrightarrow>
   self_client self = None \<and> (allclients self = None \<or> allclients self = Some [])"
  by (auto simp: the_clients_def configured_clients_def split: option.splits)


lemma asked_of_queries:
  "map fst rs = map (\<lambda>c. Call c GetMe) cs \<Longrightarrow> asked rs = cs"
proof (induction rs arbitrary: cs)
  case Nil
  then show ?case by (simp add: asked_def)
next
  case (Cons e rs)
  then obtain c cs' where cs: "cs = c # cs'" by (cases cs) auto
  with Cons.prems have "fst e = Call c GetMe" "map fst rs = map (\<lambda>c. Call c GetMe) cs'" by auto
  with Cons.IH [of cs'] cs show ?case by (cases e) (simp add: asked_def)
qed

lemma identities_clients:
  "set (map client (identities rs)) = {c. \<exists>me. (Call c GetMe, Some me) \<in> set rs}"
  by (induction rs)
     (auto simp: identities_def split: action.splits request.splits option.splits)

lemma identities_within_asked: "set (map client (identities rs)) \<subseteq> set (asked rs)"
  by (induction rs)
     (auto simp: identities_def asked_def split: action.splits request.splits option.splits)

lemma identities_distinct: "distinct (asked rs) \<Longrightarrow> distinct (map client (identities rs))"
proof (induction rs)
  case Nil
  then show ?case by (simp add: identities_def)
next
  case (Cons e rs)
  have split: "identities (e # rs) = identities [e] @ identities rs"
              "asked (e # rs) = asked [e] @ asked rs"
    by (simp_all add: identities_def asked_def)
  have one: "set (map client (identities [e])) \<subseteq> set (asked [e])"
            "distinct (map client (identities [e]))"
    by (auto simp: identities_def asked_def
        split: prod.splits action.splits request.splits option.splits)
  from Cons.prems split have d: "distinct (asked rs)" "set (asked [e]) \<inter> set (asked rs) = {}"
    by auto
  with Cons.IH have "distinct (map client (identities rs))" by simp
  moreover have "set (map client (identities [e])) \<inter> set (map client (identities rs)) = {}"
    using one(1) identities_within_asked [of rs] d(2) by blast
  ultimately show ?case using one(2) split(1) by simp
qed

lemma count_in_distinct:
  "distinct (map f xs) \<Longrightarrow>
   length (filter (\<lambda>x. f x = y) xs) = (if y \<in> set (map f xs) then 1 else 0)"
  by (induction xs) auto

lemma distinct_the_clients: "distinct cs \<Longrightarrow> distinct (the_clients cs)"
proof (induction cs)
  case Nil
  then show ?case by (simp add: the_clients_def)
next
  case (Cons c cs)
  have s: "set (the_clients cs) = {x. Some x \<in> set cs}"
    by (auto simp: the_clients_def split: option.splits)
  have "the_clients (c # cs) = (case c of None \<Rightarrow> [] | Some x \<Rightarrow> [x]) @ the_clients cs"
    by (simp add: the_clients_def)
  with Cons s show ?case by (cases c) auto
qed

lemma main_count:
  assumes "distinct (map client accs)"
  shows "length (filter (is_main self) accs) =
         (if \<exists>m. self_client self = Some m \<and> m \<in> set (map client accs) then 1 else 0)"
proof (cases "self_client self")
  case None
  then show ?thesis by (simp add: is_main_def)
next
  case (Some m)
  then have "is_main self = (\<lambda>x. client x = m)" by (auto simp: is_main_def)
  with count_in_distinct [OF assms, of m] Some show ?thesis by simp
qed

text \<open>
  C5. \<^verbatim>\<open>_refresh_accounts\<close> returns the cached roster, leaving the coordinator, the
  environment and the trace as they were (no session is queried), exactly when \<open>force\<close> is
  false, the cache is non-empty and the clock reads less than 60 past the last stamp.
  Otherwise it asks every configured session for its identity, once each and in the order
  of enumeration; the roster is made of the answers, in that order, the sessions whose
  query raised being left out; the roster replaces the cache and the clock's reading after
  the queries is the new stamp. A forced call is never served from the cache. A call that
  returned a non-empty roster is followed, within the window, by unforced calls that return
  the same roster and query nothing.
\<close>

theorem refresh_accounts_cache:
  "cache_fresh env self force w =
     (\<not> force \<and> accounts_cache self \<noteq> [] \<and> clock env w - accounts_cache_ts self < 60)
   \<and> (cache_fresh env self force w \<longrightarrow>
        refresh_accounts env self force (w, tr) = (Inr (accounts_cache self, self), (w, tr)))
   \<and> (\<not> cache_fresh env self force w \<longrightarrow>
        (\<exists>w' rs. refresh_accounts env self force (w, tr) =
                   (Inr (identities rs,
                         self\<lparr>accounts_cache := identities rs,
                              accounts_cache_ts := clock env w'\<rparr>),
                    (w', tr @ rs))
           \<and> map fst rs = map (\<lambda>c. Call c GetMe) (the_clients (configured_clients self))))
   \<and> (force \<longrightarrow> \<not> cache_fresh env self force w)
   \<and> (refresh_accounts env self force (w, tr) = (Inr (accs, self'), s') \<and> accs \<noteq> []
        \<and> clock env w2 - accounts_cache_ts self' < 60 \<longrightarrow>
        refresh_accounts env self' False (w2, tr2) = (Inr (accs, self'), (w2, tr2)))"
proof (intro conjI impI)
  show "cache_fresh env self force w =
     (\<not> force \<and> accounts_cache self \<noteq> [] \<and> clock env w - accounts_cache_ts self < 60)"
    by (simp add: cache_fresh_def)
next
  assume "cache_fresh env self force w"
  then show "refresh_accounts env self force (w, tr) = (Inr (accounts_cache self, self), (w, tr))"
    by (rule refresh_cached)
next
  assume "\<not> cache_fresh env self force w"
  then show "\<exists>w' rs. refresh_accounts env self force (w, tr) =
                   (Inr (identities rs,
                         self\<lparr>accounts_cache := identities rs,
                              accounts_cache_ts := clock env w'\<rparr>),
                    (w', tr @ rs))
           \<and> map fst rs = map (\<lambda>c. Call c GetMe) (the_clients (configured_clients self))"
    by (rule refresh_requery)
next
  assume force
  then show "\<not> cache_fresh env self force w" by (simp add: cache_fresh_def)
next
  assume a: "refresh_accounts env self force (w, tr) = (Inr (accs, self'), s') \<and> accs \<noteq> []
        \<and> clock env w2 - accounts_cache_ts self' < 60"
  then have "refresh_accounts env self force (w, tr) = (Inr (accs, self'), s')" by simp
  then have "accounts_cache self' = accs" by (rule refresh_result_is_cache)
  with a have "cache_fresh env self' False w2" by (simp add: cache_fresh_def)
  then have "refresh_accounts env self' False (w2, tr2) = (Inr (accounts_cache self', self'), (w2, tr2))"
    by (rule refresh_cached)
  with \<open>accounts_cache self' = accs\<close>
  show "refresh_accounts env self' False (w2, tr2) = (Inr (accs, self'), (w2, tr2))" by simp
qed

theorem refresh_accounts_cache_witness:
  "cache_fresh quiet_env fresh_self False ()
   \<and> refresh_accounts quiet_env fresh_self False ((), []) =
       (Inr ([acc_a, acc_b, acc_c], fresh_self), ((), []))
   \<and> [acc_a, acc_b, acc_c] \<noteq> []
   \<and> clock quiet_env () - accounts_cache_ts fresh_self < 60
   \<and> \<not> cache_fresh own_session_down_env fresh_self True ()
   \<and> refresh_accounts own_session_down_env fresh_self True ((), []) =
       (Inr ([\<lparr>client = 2, user = \<lparr>user_id = Some 102, username = None\<rparr>\<rparr>,
              \<lparr>client = 3, user = \<lparr>user_id = Some 103, username = None\<rparr>\<rparr>],
             fresh_self\<lparr>accounts_cache :=
                          [\<lparr>client = 2, user = \<lparr>user_id = Some 102, username = None\<rparr>\<rparr>,
                           \<lparr>client = 3, user = \<lparr>user_id = Some 103, username = None\<rparr>\<rparr>],
                        accounts_cache_ts := 100\<rparr>),
        ((), [(Call 1 GetMe, None),
              (Call 2 GetMe, Some (Me \<lparr>user_id = Some 102, username = None\<rparr>)),
              (Call 3 GetMe, Some (Me \<lparr>user_id = Some 103, username = None\<rparr>))]))"
proof -
  have a: "cache_fresh quiet_env fresh_self False ()"
    by (simp add: cache_fresh_def quiet_env_def fresh_self_def)
  have b: "\<not> cache_fresh own_session_down_env fresh_self True ()"
    by (simp add: cache_fresh_def)
  have c: "refresh_accounts own_session_down_env fresh_self True ((), []) =
       (Inr ([\<lparr>client = 2, user = \<lparr>user_id = Some 102, username = None\<rparr>\<rparr>,
              \<lparr>client = 3, user = \<lparr>user_id = Some 103, username = None\<rparr>\<rparr>],
             fresh_self\<lparr>accounts_cache :=
                          [\<lparr>client = 2, user = \<lparr>user_id = Some 102, username = None\<rparr>\<rparr>,
                           \<lparr>client = 3, user = \<lparr>user_id = Some 103, username = None\<rparr>\<rparr>],
                        accounts_cache_ts := 100\<rparr>),
        ((), [(Call 1 GetMe, None),
              (Call 2 GetMe, Some (Me \<lparr>user_id = Some 102, username = None\<rparr>)),
              (Call 3 GetMe, Some (Me \<lparr>user_id = Some 103, username = None\<rparr>))]))"
    by code_simp
  have d: "accounts_cache fresh_self = [acc_a, acc_b, acc_c]" "accounts_cache_ts fresh_self = 0"
          "clock quiet_env () = 0"
    by (simp_all add: fresh_self_def quiet_env_def)
  show ?thesis
    using refresh_accounts_cache [where env = quiet_env and self = fresh_self and force = False
        and w = "()" and tr = "[]" and accs = "[acc_a, acc_b, acc_c]" and self' = fresh_self
        and s' = "((), [])" and ?w2.0 = "()" and ?tr2.0 = "[]"] a b c d
    by simp
qed

text \<open>
  C8 (amended). The claim has exactly one primary account in every non-empty roster that a
  refresh produces. The roster keeps only the sessions that answered: when the
  coordinator's own session (client 1) does not answer and clients 2 and 3 do, the roster
  has two entries and none of them is the coordinator's own.
\<close>

theorem no_main_counterexample:
  "fst (refresh_accounts own_session_down_env fresh_self True ((), [])) =
     Inr ([\<lparr>client = 2, user = \<lparr>user_id = Some 102, username = None\<rparr>\<rparr>,
           \<lparr>client = 3, user = \<lparr>user_id = Some 103, username = None\<rparr>\<rparr>],
          fresh_self\<lparr>accounts_cache :=
                       [\<lparr>client = 2, user = \<lparr>user_id = Some 102, username = None\<rparr>\<rparr>,
                        \<lparr>client = 3, user = \<lparr>user_id = Some 103, username = None\<rparr>\<rparr>],
                     accounts_cache_ts := 100\<rparr>)
   \<and> length (filter (is_main fresh_self)
        [\<lparr>client = 2, user = \<lparr>user_id = Some 102, username = None\<rparr>\<rparr>,
         \<lparr>client = 3, user = \<lparr>user_id = Some 103, username = None\<rparr>\<rparr>]) = 0"
  by code_simp

text \<open>
  C8 as amended. When the configured sessions are pairwise distinct, the roster that a
  re-querying refresh produces holds the coordinator's own session exactly once if that
  session answered the identity query and not at all otherwise; when the coordinator's own
  session is the only one configured, every non-empty roster holds it exactly once.
\<close>

theorem one_main_if_own_session_answers:
  "distinct (configured_clients self) \<and> \<not> cache_fresh env self force w \<longrightarrow>
   (\<exists>w' rs. refresh_accounts env self force (w, tr) =
              (Inr (identities rs,
                    self\<lparr>accounts_cache := identities rs, accounts_cache_ts := clock env w'\<rparr>),
               (w', tr @ rs))
      \<and> length (filter (is_main self) (identities rs)) =
          (if \<exists>m me. self_client self = Some m \<and> (Call m GetMe, Some me) \<in> set rs
           then 1 else 0)
      \<and> ((allclients self = None \<or> allclients self = Some []) \<and> identities rs \<noteq> [] \<longrightarrow>
           length (filter (is_main self) (identities rs)) = 1))"
proof
  assume a: "distinct (configured_clients self) \<and> \<not> cache_fresh env self force w"
  from refresh_requery [of env self force w tr] a obtain w' rs where
    r: "refresh_accounts env self force (w, tr) =
           (Inr (identities rs,
                 self\<lparr>accounts_cache := identities rs, accounts_cache_ts := clock env w'\<rparr>),
            (w', tr @ rs))"
       "map fst rs = map (\<lambda>c. Call c GetMe) (the_clients (configured_clients self))"
    by blast
  have q: "asked rs = the_clients (configured_clients self)"
    using r(2) by (rule asked_of_queries)
  then have "distinct (asked rs)" using a by (simp add: distinct_the_clients)
  then have d: "distinct (map client (identities rs))" by (rule identities_distinct)
  have n: "length (filter (is_main self) (identities rs)) =
          (if \<exists>m me. self_client self = Some m \<and> (Call m GetMe, Some me) \<in> set rs
           then 1 else 0)"
    using main_count [OF d, of self] identities_clients [of rs] by auto
  have o: "length (filter (is_main self) (identities rs)) = 1"
    if h: "(allclients self = None \<or> allclients self = Some []) \<and> identities rs \<noteq> []"
  proof -
    from h have "configured_clients self = [self_client self]"
      by (auto simp: configured_clients_def)
    with q have "set (asked rs) \<subseteq> {m. self_client self = Some m}"
      by (auto simp: the_clients_def split: option.splits)
    moreover from h obtain x where "x \<in> set (map client (identities rs))"
      by (cases "identities rs") auto
    ultimately have "\<exists>m. self_client self = Some m \<and> m \<in> set (map client (identities rs))"
      using identities_within_asked [of rs] by blast
    with main_count [OF d, of self] show ?thesis by simp
  qed
  from r(1) n o show "\<exists>w' rs. refresh_accounts env self force (w, tr) =
              (Inr (identities rs,
                    self\<lparr>accounts_cache := identities rs, accounts_cache_ts := clock env w'\<rparr>),
               (w', tr @ rs))
      \<and> length (filter (is_main self) (identities rs)) =
          (if \<exists>m me. self_client self = Some m \<and> (Call m GetMe, Some me) \<in> set rs
           then 1 else 0)
      \<and> ((allclients self = None \<or> allclients self = Some []) \<and> identities rs \<noteq> [] \<longrightarrow>
           length (filter (is_main self) (identities rs)) = 1)"
    by blast
qed

theorem one_main_if_own_session_answers_witness:
  "distinct (configured_clients fresh_self) \<and> \<not> cache_fresh quiet_env fresh_self True ()
   \<and> fst (refresh_accounts quiet_env fresh_self True ((), [])) =
       Inr ([\<lparr>client = 1, user = \<lparr>user_id = None, username = None\<rparr>\<rparr>,
             \<lparr>client = 2, user = \<lparr>user_id = None, username = None\<rparr>\<rparr>,
             \<lparr>client = 3, user = \<lparr>user_id = None, username = None\<rparr>\<rparr>],
            fresh_self\<lparr>accounts_cache :=
                         [\<lparr>client = 1, user = \<lparr>user_id = None, username = None\<rparr>\<rparr>,
                          \<lparr>client = 2, user = \<lparr>user_id = None, username = None\<rparr>\<rparr>,
                          \<lparr>client = 3, user = \<lparr>user_id = None, username = None\<rparr>\<rparr>],
                       accounts_cache_ts := 0\<rparr>)
   \<and> length (filter (is_main fresh_self)
        [\<lparr>client = 1, user = \<lparr>user_id = None, username = None\<rparr>\<rparr>,
         \<lparr>client = 2, user = \<lparr>user_id = None, username = None\<rparr>\<rparr>,
         \<lparr>client = 3, user = \<lparr>user_id = None, username = None\<rparr>\<rparr>]) = 1"
proof -
  have a: "distinct (configured_clients fresh_self)" by code_simp
  have b: "\<not> cache_fresh quiet_env fresh_self True ()" by (simp add: cache_fresh_def)
  have c: "fst (refresh_accounts quiet_env fresh_self True ((), [])) =
       Inr ([\<lparr>client = 1, user = \<lparr>user_id = None, username = None\<rparr>\<rparr>,
             \<lparr>client = 2, user = \<lparr>user_id = None, username = None\<rparr>\<rparr>,
             \<lparr>client = 3, user = \<lparr>user_id = None, username = None\<rparr>\<rparr>],
            fresh_self\<lparr>accounts_cache :=
                         [\<lparr>client = 1, user = \<lparr>user_id = None, username = None\<rparr>\<rparr>,
                          \<lparr>client = 2, user = \<lparr>user_id = None, username = None\<rparr>\<rparr>,
                          \<lparr>client = 3, user = \<lparr>user_id = None, username = None\<rparr>\<rparr>],
                       accounts_cache_ts := 0\<rparr>)"
    by code_simp
  from one_main_if_own_session_answers [where self = fresh_self and env = quiet_env
      and force = True and w = "()" and tr = "[]"] a b
  obtain w' rs where r: "refresh_accounts quiet_env fresh_self True ((), []) =
              (Inr (identities rs,
                    fresh_self\<lparr>accounts_cache := identities rs,
                               accounts_cache_ts := clock quiet_env w'\<rparr>),
               (w', [] @ rs))"
     "length (filter (is_main fresh_self) (identities rs)) =
          (if \<exists>m me. self_client fresh_self = Some m \<and> (Call m GetMe, Some me) \<in> set rs
           then 1 else 0)"
    by blast
  from r(1) c have "identities rs = [\<lparr>client = 1, user = \<lparr>user_id = None, username = None\<rparr>\<rparr>,
         \<lparr>client = 2, user = \<lparr>user_id = None, username = None\<rparr>\<rparr>,
         \<lparr>client = 3, user = \<lparr>user_id = None, username = None\<rparr>\<rparr>]"
    by simp
  moreover have "length (filter (is_main fresh_self)
        [\<lparr>client = 1, user = \<lparr>user_id = None, username = None\<rparr>\<rparr>,
         \<lparr>client = 2, user = \<lparr>user_id = None, username = None\<rparr>\<rparr>,
         \<lparr>client = 3, user = \<lparr>user_id = None, username = None\<rparr>\<rparr>]) = 1"
    by code_simp
  ultimately show ?thesis using a b c by simp
qed

subsection \<open>The report broadcast\<close>

text \<open>
  C2 (the code departs from the claim). A failure of the operation for one account is
  claimed to be caught, not to stop the remaining accounts, and to count as a non-success,
  so that three accounts of which the second fails give 2 of 3. In \<^verbatim>\<open>reportcmd\<close> the report
  requests are wrapped in \<^verbatim>\<open>try ... except Exception: pass\<close> and \<^verbatim>\<open>success += 1\<close> follows
  unconditionally: with three member accounts of which the second cannot report, both of
  its requests raise, the remaining account is still served, and the summary reads 3 of 3.
\<close>

theorem report_counts_failed_reports:
  "snd (snd (reportcmd b_cannot_report_env fresh_self True [] \<lparr>chat_username = None\<rparr> ((), [])))
   = [(Call 1 GetPermissions, Some Done), (Call 1 GetInputEntity, Some Done),
      (Call 1 (ReportRequest ''Spam''), Some Done), (Call 1 (ReportRequest ''Other''), Some Done),
      (Sleep 0.25, Some Done),
      (Call 2 GetPermissions, Some Done), (Call 2 GetInputEntity, Some Done),
      (Call 2 (ReportRequest ''Spam''), None), (Call 2 (ReportRequest ''Other''), None),
      (Sleep 0.25, Some Done),
      (Call 3 GetPermissions, Some Done), (Call 3 GetInputEntity, Some Done),
      (Call 3 (ReportRequest ''Spam''), Some Done), (Call 3 (ReportRequest ''Other''), Some Done),
      (Sleep 0.25, Some Done),
      (Answer (ReportDone 3 3 {''Spam'', ''Other''}), Some Done)]"
  by code_simp

text \<open>
  The sibling paths count as the claim says: an account that cannot be made a member is
  skipped by \<^verbatim>\<open>reportcmd\<close> without being counted, and \<^verbatim>\<open>joincmd\<close> counts only the accounts
  that joined; neither stops at the failing account.
\<close>

lemma report_skips_non_member:
  "last (snd (snd (reportcmd b_not_member_env fresh_self True [] \<lparr>chat_username = None\<rparr> ((), []))))
   = (Answer (ReportDone 2 3 {''Spam'', ''Other''}), Some Done)"
  by code_simp

lemma join_counts_members_only:
  "last (snd (snd (joincmd b_not_member_env fresh_self [] \<lparr>chat_username = None\<rparr> ((), []))))
   = (Answer (JoinOk 2 3), Some Done)"
  by code_simp

end
